theory Spec2Isabelle
  imports Main "HOL-Library.AList"
begin

section \<open>Data model\<close>

text \<open>
  Addresses, amounts and identifiers are strings in the source (\<^verbatim>\<open>Address\<close> of viem
  is a string type; \<^verbatim>\<open>amount\<close> is the decimal string the indexer returns).
  JavaScript's \<^verbatim>\<open>===\<close> on two strings is equality of their characters, which is
  equality of \<^typ>\<open>string\<close> here.
\<close>

type_synonym Address = string

text \<open>
  \<^verbatim>\<open>TokenApprovalData\<close> of \<^verbatim>\<open>services/envio.ts\<close>. The field \<^verbatim>\<open>id\<close> is named
  \<open>idA\<close>, since \<open>id\<close> is the identity function of HOL.
\<close>

record TokenApprovalData =
  idA :: string
  owner :: string
  spender :: string
  token :: string
  amount :: string
  isRisky :: bool
  status :: string

text \<open>\<^verbatim>\<open>RuleResult\<close> of \<^verbatim>\<open>agent/ruleEngine.ts\<close>; its \<^verbatim>\<open>action\<close> is one of three literals.\<close>

datatype Action = Revoke | Cleanup | Consolidate

record RuleResult =
  shouldExecute :: bool
  reason :: string
  action :: Action
  target :: string

section \<open>Rule engine\<close>

text \<open>The constant of \<^verbatim>\<open>checkUnlimitedApproval\<close>: the decimal digits of \<open>2 ^ 256 - 1\<close>.\<close>

definition UNLIMITED :: string where
  "UNLIMITED = ''115792089237316195423570985008687907853269984665640564039457584007913129639935''"

definition checkUnlimitedApproval :: "TokenApprovalData \<Rightarrow> RuleResult option" where
  "checkUnlimitedApproval approval =
     (if amount approval = UNLIMITED
      then Some \<lparr>shouldExecute = True, reason = ''Unlimited approval detected'',
                 action = Revoke, target = token approval\<rparr>
      else None)"

text \<open>
  \<^verbatim>\<open>checkStaleApproval\<close> computes thirty days in milliseconds and returns \<^verbatim>\<open>null\<close>
  whatever its arguments are (the timestamp check is a TODO of the source).
\<close>

definition checkStaleApproval :: "TokenApprovalData \<Rightarrow> int \<Rightarrow> RuleResult option" where
  "checkStaleApproval approval currentTime =
     (let THIRTY_DAYS = (30 * 24 * 60 * 60 * 1000 :: int) in None)"

definition checkRiskyApproval :: "TokenApprovalData \<Rightarrow> RuleResult option" where
  "checkRiskyApproval approval =
     (if isRisky approval
      then Some \<lparr>shouldExecute = True, reason = ''Risky approval detected'',
                 action = Revoke, target = token approval\<rparr>
      else None)"

text \<open>
  \<^verbatim>\<open>evaluateApproval\<close> reads the clock (\<^verbatim>\<open>Date.now()\<close>) and then tries the rules in
  the order unlimited, risky, stale; the first rule that answers wins. The clock reading is
  the explicit argument \<open>currentTime\<close>.
\<close>

definition evaluateApproval :: "int \<Rightarrow> TokenApprovalData \<Rightarrow> RuleResult option" where
  "evaluateApproval currentTime approval =
     (case checkUnlimitedApproval approval of
        Some unlimitedResult \<Rightarrow> Some unlimitedResult
      | None \<Rightarrow>
          (case checkRiskyApproval approval of
             Some riskyResult \<Rightarrow> Some riskyResult
           | None \<Rightarrow>
               (case checkStaleApproval approval currentTime of
                  Some staleResult \<Rightarrow> Some staleResult
                | None \<Rightarrow> None)))"

text \<open>
  \<^verbatim>\<open>evaluateAllApprovals\<close> is \<^verbatim>\<open>approvals.map(evaluateApproval).filter(r => r !== null)\<close>.
  Each call of \<^verbatim>\<open>evaluateApproval\<close> reads the clock anew: \<open>clock i\<close> is the reading
  taken for the approval at index \<open>i\<close>.
\<close>

definition evaluateAllApprovals :: "(nat \<Rightarrow> int) \<Rightarrow> TokenApprovalData list \<Rightarrow> RuleResult list" where
  "evaluateAllApprovals clock approvals =
     map the (filter (\<lambda>result. result \<noteq> None)
       (map (\<lambda>(i, approval). evaluateApproval (clock i) approval) (enumerate 0 approvals)))"

text \<open>
  The specification's reading of \<open>evaluateAll\<close>: go through the approvals from left to
  right, keep the action of each approval that has one, drop the others.
\<close>

fun spec_evaluateAll :: "(TokenApprovalData \<Rightarrow> RuleResult option) \<Rightarrow> TokenApprovalData list \<Rightarrow> RuleResult list" where
  "spec_evaluateAll evaluate [] = []"
| "spec_evaluateAll evaluate (a # as) =
     (case evaluate a of
        None \<Rightarrow> spec_evaluateAll evaluate as
      | Some r \<Rightarrow> r # spec_evaluateAll evaluate as)"

text \<open>
  The numeric value of a decimal amount string, used only to state what the specification
  says about amounts above a threshold; the rule engine itself never converts an amount.
\<close>

definition amountValue :: "string \<Rightarrow> nat" where
  "amountValue s = foldl (\<lambda>n c. 10 * n + (of_char c - 48)) 0 s"

text \<open>
  The threshold of the indexer's event handler (\<^verbatim>\<open>UNLIMITED_THRESHOLD\<close> in
  \<^verbatim>\<open>EventHandlers.js\<close>, forty-four hexadecimal digits \<^verbatim>\<open>f\<close>).
\<close>

definition UNLIMITED_THRESHOLD :: nat where
  "UNLIMITED_THRESHOLD = 2 ^ 176 - 1"

section \<open>Delegation registry\<close>

text \<open>
  \<^verbatim>\<open>DelegationRecord\<close> of \<^verbatim>\<open>agent/delegationRegistry.ts\<close>. The field \<^verbatim>\<open>id\<close> is
  \<open>idD\<close> and the scope's \<^verbatim>\<open>type\<close> is \<open>typeS\<close>; \<^verbatim>\<open>createdAt\<close> is a time stamp.
\<close>

record DelegationScope =
  typeS :: string
  targets :: "Address list"
  selectors :: "string list"

record DelegationRecord =
  idD :: string
  delegator :: Address
  delegate :: Address
  scope :: DelegationScope
  createdAt :: int
  isActive :: bool

text \<open>
  The registry is a JavaScript \<^verbatim>\<open>Map\<close> from identifiers to records. A \<^verbatim>\<open>Map\<close> keeps
  its keys in insertion order, has each key once, and \<^verbatim>\<open>set\<close> on a key that is present
  replaces the value where it stands: this is \<^const>\<open>AList.update\<close> on an association
  list. \<^verbatim>\<open>values()\<close> is the list of the second components.
\<close>

type_synonym Registry = "(string \<times> DelegationRecord) list"

definition emptyRegistry :: Registry where
  "emptyRegistry = []"

text \<open>\<^verbatim>\<open>register\<close> has no check and no \<^verbatim>\<open>throw\<close>: it stores the record under its id.\<close>

definition register :: "Registry \<Rightarrow> DelegationRecord \<Rightarrow> Registry" where
  "register delegations delegation = AList.update (idD delegation) delegation delegations"

text \<open>
  \<^verbatim>\<open>revoke\<close> looks the id up and, when a record is there, clears its \<^verbatim>\<open>isActive\<close> flag
  in place; an unknown id changes nothing. It has no \<^verbatim>\<open>throw\<close> either.
\<close>

definition revoke :: "Registry \<Rightarrow> string \<Rightarrow> Registry" where
  "revoke delegations delegationId =
     (case map_of delegations delegationId of
        Some delegation \<Rightarrow>
          AList.update delegationId (delegation\<lparr>isActive := False\<rparr>) delegations
      | None \<Rightarrow> delegations)"

definition getActiveDelegations :: "Registry \<Rightarrow> Address \<Rightarrow> DelegationRecord list" where
  "getActiveDelegations delegations dlg =
     filter (\<lambda>d. delegate d = dlg \<and> isActive d) (map snd delegations)"

definition getDelegationsForWallet :: "Registry \<Rightarrow> Address \<Rightarrow> DelegationRecord list" where
  "getDelegationsForWallet delegations dlr =
     filter (\<lambda>d. delegator d = dlr) (map snd delegations)"

definition hasDelegation :: "Registry \<Rightarrow> Address \<Rightarrow> Address \<Rightarrow> bool" where
  "hasDelegation delegations dlr dlg =
     list_ex (\<lambda>d. delegator d = dlr \<and> delegate d = dlg \<and> isActive d) (map snd delegations)"

text \<open>
  What a \<^verbatim>\<open>Map\<close> filled by \<^verbatim>\<open>register\<close> satisfies: every key occurs once, and a record
  stands under its own id.
\<close>

definition registry_inv :: "Registry \<Rightarrow> bool" where
  "registry_inv delegations =
     (distinct (map fst delegations) \<and> list_all (\<lambda>(k, d). idD d = k) delegations)"

section \<open>Indexer client\<close>

text \<open>
  Errors are values. \<open>Error msg\<close> is \<^verbatim>\<open>new Error(msg)\<close> of the source; \<open>Thrown\<close> is
  an exception raised inside a library call (the GraphQL client, viem).
\<close>

datatype error = Error string | Thrown

text \<open>
  \<^verbatim>\<open>getAllApprovals\<close> sends one query and returns \<^verbatim>\<open>data.TokenApproval\<close>; its
  \<^verbatim>\<open>catch\<close> logs the error and returns the empty array. The outcome of
  \<^verbatim>\<open>client.request\<close> (a rejection such as a timeout or a network failure, or the data) is
  the argument \<open>response\<close>.
\<close>

definition getAllApprovals :: "error + TokenApprovalData list \<Rightarrow> TokenApprovalData list" where
  "getAllApprovals response = (case response of Inr data \<Rightarrow> data | Inl err \<Rightarrow> [])"

section \<open>Transaction executor\<close>

text \<open>
  What the executor reads from outside: the environment variable of the private key,
  and whether viem accepts a private key (\<^verbatim>\<open>privateKeyToAccount\<close>) and a spender address
  (\<^verbatim>\<open>encodeFunctionData\<close> of \<^verbatim>\<open>approve(spender, 0)\<close>); both library calls throw on
  input they reject.
\<close>

record World =
  AGENT_PRIVATE_KEY :: "string option"
  privateKeyToAccount :: "string \<Rightarrow> bool"
  encodeFunctionData :: "Address \<Rightarrow> bool"

text \<open>
  \<^verbatim>\<open>revokeApproval\<close> is where a transaction would be handed to the authority provider
  (\<^verbatim>\<open>redeemDelegations\<close>). The source encodes the call, logs \<^verbatim>\<open>Would revoke approval\<close>
  and returns a placeholder hash; it never reads its \<^verbatim>\<open>delegation\<close> argument. Each call
  that reaches this point is recorded, with its arguments, in \<open>submitted\<close>.
\<close>

record RevokeCall =
  smartAccountC :: Address
  tokenC :: Address
  spenderC :: Address
  delegationC :: DelegationRecord

text \<open>
  The state of the executor module: the singleton (\<^verbatim>\<open>null\<close>, or an executor built from
  a private key) and the calls recorded so far.
\<close>

record ExecutorState =
  executor :: "string option"
  submitted :: "RevokeCall list"

definition placeholderHash :: string where
  "placeholderHash = ''0x'' @ replicate 64 (CHR ''0'')"

definition revokeApproval ::
  "World \<Rightarrow> ExecutorState \<Rightarrow> Address \<Rightarrow> Address \<Rightarrow> Address \<Rightarrow> DelegationRecord
     \<Rightarrow> (error + string) \<times> ExecutorState" where
  "revokeApproval w st smartAccount tokenAddress spenderAddress delegation =
     (if encodeFunctionData w spenderAddress
      then (Inr placeholderHash,
            st\<lparr>submitted := submitted st @
              [\<lparr>smartAccountC = smartAccount, tokenC = tokenAddress,
                spenderC = spenderAddress, delegationC = delegation\<rparr>]\<rparr>)
      else (Inl Thrown, st))"

text \<open>An element of the \<^verbatim>\<open>revocations\<close> array: \<^verbatim>\<open>{ token, spender }\<close>.\<close>

record Revocation =
  tokenR :: Address
  spenderR :: Address

text \<open>
  The loop of \<^verbatim>\<open>executeMultipleRevocations\<close>, with the array \<^verbatim>\<open>results\<close> as an
  accumulator: a hash is pushed for a call that returns, a call that throws is logged and
  the loop goes on.
\<close>

fun executeLoop ::
  "World \<Rightarrow> Address \<Rightarrow> DelegationRecord \<Rightarrow> string list \<Rightarrow> ExecutorState \<Rightarrow> Revocation list
     \<Rightarrow> string list \<times> ExecutorState" where
  "executeLoop w smartAccount delegation results st [] = (results, st)"
| "executeLoop w smartAccount delegation results st (r # rs) =
     (case revokeApproval w st smartAccount (tokenR r) (spenderR r) delegation of
        (Inr txHash, st') \<Rightarrow> executeLoop w smartAccount delegation (results @ [txHash]) st' rs
      | (Inl err, st') \<Rightarrow> executeLoop w smartAccount delegation results st' rs)"

definition executeMultipleRevocations ::
  "World \<Rightarrow> ExecutorState \<Rightarrow> Address \<Rightarrow> Revocation list \<Rightarrow> DelegationRecord
     \<Rightarrow> string list \<times> ExecutorState" where
  "executeMultipleRevocations w st smartAccount revocations delegation =
     executeLoop w smartAccount delegation [] st revocations"

text \<open>
  \<^verbatim>\<open>getExecutor\<close>: the singleton is built on first use from \<^verbatim>\<open>AGENT_PRIVATE_KEY\<close>; an
  unset or empty key (both falsy) throws, and so does a key that viem rejects.
\<close>

definition getExecutor :: "World \<Rightarrow> ExecutorState \<Rightarrow> (error + unit) \<times> ExecutorState" where
  "getExecutor w st =
     (case executor st of
        Some ex \<Rightarrow> (Inr (), st)
      | None \<Rightarrow>
          (case AGENT_PRIVATE_KEY w of
             None \<Rightarrow> (Inl (Error ''AGENT_PRIVATE_KEY not set''), st)
           | Some privateKey \<Rightarrow>
               if privateKey = [] then (Inl (Error ''AGENT_PRIVATE_KEY not set''), st)
               else if privateKeyToAccount w privateKey
                    then (Inr (), st\<lparr>executor := Some privateKey\<rparr>)
                    else (Inl Thrown, st)))"

section \<open>Wallet monitor\<close>

text \<open>
  The revocation requests of \<^verbatim>\<open>checkWallet\<close>, in the three steps of the source: keep the
  actions that revoke; pair each target with the spender of the first approval that
  \<^verbatim>\<open>find\<close> gives for that token (\<^verbatim>\<open>undefined\<close> when there is none); keep the pairs
  whose spender is truthy, that is, defined and not the empty string.
\<close>

definition spenderFor :: "TokenApprovalData list \<Rightarrow> string \<Rightarrow> Address option" where
  "spenderFor approvals tgt = map_option spender (find (\<lambda>app. token app = tgt) approvals)"

fun truthy :: "string option \<Rightarrow> bool" where
  "truthy None = False"
| "truthy (Some s) = (s \<noteq> [])"

definition revocationsOf :: "TokenApprovalData list \<Rightarrow> RuleResult list \<Rightarrow> Revocation list" where
  "revocationsOf approvals actions =
     map (\<lambda>(t, s). \<lparr>tokenR = t, spenderR = the s\<rparr>)
       (filter (\<lambda>(t, s). truthy s)
         (map (\<lambda>a. (target a, spenderFor approvals (target a)))
           (filter (\<lambda>a. action a = Revoke) actions)))"

text \<open>How one call of \<^verbatim>\<open>checkWallet\<close> ends.\<close>

datatype Outcome =
    NoActionsNeeded
  | NothingToRevoke
  | Executed nat
  | WalletError error

text \<open>
  \<^verbatim>\<open>checkWallet\<close>: fetch the approvals, evaluate the rules, stop with
  \<^verbatim>\<open>No actions needed\<close> when there is no action; otherwise get the executor, build the
  revocation requests and, when there are any, execute them. An exception is caught and
  logged. The \<^verbatim>\<open>delegation\<close> is only passed on to the executor.
\<close>

definition checkWallet ::
  "World \<Rightarrow> error + TokenApprovalData list \<Rightarrow> (nat \<Rightarrow> int) \<Rightarrow> ExecutorState
     \<Rightarrow> Address \<Rightarrow> DelegationRecord \<Rightarrow> Outcome \<times> ExecutorState" where
  "checkWallet w response clock st walletAddress delegation =
     (let approvals = getAllApprovals response;
          actions = evaluateAllApprovals clock approvals
      in if length actions = 0 then (NoActionsNeeded, st)
         else
           (case getExecutor w st of
              (Inl err, st1) \<Rightarrow> (WalletError err, st1)
            | (Inr ex, st1) \<Rightarrow>
                (let revocations = revocationsOf approvals actions
                 in if length revocations > 0
                    then (case executeMultipleRevocations w st1 walletAddress revocations delegation of
                            (txHashes, st2) \<Rightarrow> (Executed (length txHashes), st2))
                    else (NothingToRevoke, st1))))"

text \<open>
  The scheduler. \<open>isRunning\<close> is the field of the source; \<open>scheduled\<close> counts the cron
  jobs registered by \<^verbatim>\<open>cron.schedule\<close> and \<open>inFlight\<close> the calls of
  \<^verbatim>\<open>checkAllWallets\<close> that have begun and not yet returned (the function is
  asynchronous and waits for the registry, the indexer and the executor).
\<close>

record MonitorState =
  isRunning :: bool
  scheduled :: nat
  inFlight :: nat

definition initialMonitor :: MonitorState where
  "initialMonitor = \<lparr>isRunning = False, scheduled = 0, inFlight = 0\<rparr>"

text \<open>
  \<^verbatim>\<open>checkAllWallets\<close> begins without reading any flag of the monitor; its body is a
  \<^verbatim>\<open>try\<close> whose \<^verbatim>\<open>catch\<close> logs, so it always returns.
\<close>

definition beginCheckAllWallets :: "MonitorState \<Rightarrow> MonitorState" where
  "beginCheckAllWallets m = m\<lparr>inFlight := inFlight m + 1\<rparr>"

definition endCheckAllWallets :: "MonitorState \<Rightarrow> MonitorState" where
  "endCheckAllWallets m = m\<lparr>inFlight := inFlight m - 1\<rparr>"

text \<open>
  \<^verbatim>\<open>start\<close>: nothing when already running; otherwise set the flag, register the cron
  job and call \<^verbatim>\<open>checkAllWallets\<close> at once, without waiting for it.
\<close>

definition start :: "MonitorState \<Rightarrow> MonitorState" where
  "start m =
     (if isRunning m then m
      else beginCheckAllWallets (m\<lparr>isRunning := True, scheduled := scheduled m + 1\<rparr>))"

definition stop :: "MonitorState \<Rightarrow> MonitorState" where
  "stop m = m\<lparr>isRunning := False\<rparr>"

text \<open>The callback given to \<^verbatim>\<open>cron.schedule\<close>: it calls \<^verbatim>\<open>checkAllWallets\<close>.\<close>

definition tick :: "MonitorState \<Rightarrow> MonitorState" where
  "tick m = beginCheckAllWallets m"

text \<open>
  The events of the monitor. A tick needs a registered cron job, and a cycle can only end
  when one is in flight; an event that cannot happen gives \<open>None\<close>.
\<close>

datatype Event = Start | Stop | Tick | CycleEnds

fun fire :: "MonitorState \<Rightarrow> Event \<Rightarrow> MonitorState option" where
  "fire m Start = Some (start m)"
| "fire m Stop = Some (stop m)"
| "fire m Tick = (if scheduled m = 0 then None else Some (tick m))"
| "fire m CycleEnds = (if inFlight m = 0 then None else Some (endCheckAllWallets m))"

fun run :: "MonitorState \<Rightarrow> Event list \<Rightarrow> MonitorState option" where
  "run m [] = Some m"
| "run m (e # es) = (case fire m e of None \<Rightarrow> None | Some m' \<Rightarrow> run m' es)"

section \<open>Fixtures\<close>

text \<open>
  Addresses as the indexer returns them (lower case, forty hexadecimal digits): a wallet,
  the agent, two spenders and two tokens; and a private key for the agent.
\<close>

definition walletAddr :: Address where
  "walletAddr = ''0x1111111111111111111111111111111111111111''"

definition agentAddr :: Address where
  "agentAddr = ''0xa9e0000000000000000000000000000000000000''"

definition firstSpender :: Address where
  "firstSpender = ''0x2222222222222222222222222222222222222222''"

definition secondSpender :: Address where
  "secondSpender = ''0x3333333333333333333333333333333333333333''"

definition tokenA :: Address where
  "tokenA = ''0x4444444444444444444444444444444444444444''"

definition tokenB :: Address where
  "tokenB = ''0x5555555555555555555555555555555555555555''"

definition agentKey :: string where
  "agentKey = ''0x0000000000000000000000000000000000000000000000000000000000000001''"

text \<open>
  The strings that the library calls of the fixture accept: \<^verbatim>\<open>0x\<close> and then \<open>n\<close>
  lower-case hexadecimal digits.
\<close>

definition isHexString :: "nat \<Rightarrow> string \<Rightarrow> bool" where
  "isHexString n s =
     (length s = n + 2 \<and> take 2 s = ''0x''
      \<and> list_all (\<lambda>c. c \<in> set ''0123456789abcdef'') (drop 2 s))"

text \<open>
  The approvals of the repository's rule-engine test, with these addresses: an unlimited
  one, a limited one and a risky one; then an amount one below the maximum, and a second
  approval of the token of the first to another spender.
\<close>

definition unlimitedApproval :: TokenApprovalData where
  "unlimitedApproval =
     \<lparr>idA = ''1'', owner = walletAddr, spender = firstSpender, token = tokenA,
      amount = ''115792089237316195423570985008687907853269984665640564039457584007913129639935'',
      isRisky = True, status = ''ACTIVE''\<rparr>"

definition limitedApproval :: TokenApprovalData where
  "limitedApproval =
     \<lparr>idA = ''2'', owner = walletAddr, spender = secondSpender, token = tokenB,
      amount = ''1000000'', isRisky = False, status = ''ACTIVE''\<rparr>"

definition riskyApproval :: TokenApprovalData where
  "riskyApproval =
     \<lparr>idA = ''1'', owner = walletAddr, spender = firstSpender, token = tokenA,
      amount = ''1000000'', isRisky = True, status = ''ACTIVE''\<rparr>"

definition nearMaxApproval :: TokenApprovalData where
  "nearMaxApproval =
     \<lparr>idA = ''3'', owner = walletAddr, spender = firstSpender, token = tokenA,
      amount = ''115792089237316195423570985008687907853269984665640564039457584007913129639934'',
      isRisky = False, status = ''ACTIVE''\<rparr>"

definition secondSpenderApproval :: TokenApprovalData where
  "secondSpenderApproval =
     \<lparr>idA = ''4'', owner = walletAddr, spender = secondSpender, token = tokenA,
      amount = ''115792089237316195423570985008687907853269984665640564039457584007913129639935'',
      isRisky = False, status = ''ACTIVE''\<rparr>"

text \<open>
  A third spender, with an ordinary approval of the token \<open>tokenA\<close> that is neither
  unlimited nor risky.
\<close>

definition thirdSpender :: Address where
  "thirdSpender = ''0x6666666666666666666666666666666666666666''"

definition earlierApproval :: TokenApprovalData where
  "earlierApproval =
     \<lparr>idA = ''5'', owner = walletAddr, spender = thirdSpender, token = tokenA,
      amount = ''1000000'', isRisky = False, status = ''ACTIVE''\<rparr>"

text \<open>
  A delegation as the registration endpoint builds it, whose scope names the token
  \<open>tokenB\<close> only; one with the same delegator and delegate registered a millisecond
  later; and one with empty delegator, delegate and scope.
\<close>

definition someDelegation :: DelegationRecord where
  "someDelegation =
     \<lparr>idD = walletAddr @ ''-'' @ agentAddr @ ''-1700000000000'', delegator = walletAddr, delegate = agentAddr,
      scope = \<lparr>typeS = ''functionCall'', targets = [tokenB], selectors = [''0x095ea7b3'']\<rparr>,
      createdAt = 1700000000000, isActive = True\<rparr>"

definition laterDelegation :: DelegationRecord where
  "laterDelegation =
     \<lparr>idD = walletAddr @ ''-'' @ agentAddr @ ''-1700000000001'', delegator = walletAddr, delegate = agentAddr,
      scope = \<lparr>typeS = ''functionCall'', targets = [tokenA], selectors = [''0x095ea7b3'']\<rparr>,
      createdAt = 1700000000001, isActive = True\<rparr>"

definition emptyDelegation :: DelegationRecord where
  "emptyDelegation =
     \<lparr>idD = ''--1700000000002'', delegator = [], delegate = [],
      scope = \<lparr>typeS = [], targets = [], selectors = []\<rparr>,
      createdAt = 1700000000002, isActive = True\<rparr>"

text \<open>A configured agent, and the executor module before its first use.\<close>

definition someWorld :: World where
  "someWorld =
     \<lparr>AGENT_PRIVATE_KEY = Some agentKey,
      privateKeyToAccount = isHexString 64, encodeFunctionData = isHexString 40\<rparr>"

definition freshExecutor :: ExecutorState where
  "freshExecutor = \<lparr>executor = None, submitted = []\<rparr>"

section \<open>Properties of the rule engine\<close>

lemmas addr_defs =
  walletAddr_def agentAddr_def firstSpender_def secondSpender_def tokenA_def tokenB_def
  agentKey_def

lemma fixture_facts:
  "tokenA \<noteq> tokenB" "tokenB \<noteq> tokenA"
  "firstSpender \<noteq> secondSpender" "secondSpender \<noteq> firstSpender"
  "firstSpender \<noteq> []" "secondSpender \<noteq> []" "agentKey \<noteq> []"
  "isHexString 40 firstSpender" "isHexString 40 secondSpender" "isHexString 64 agentKey"
  by (simp_all add: addr_defs isHexString_def)

lemma third_facts:
  "thirdSpender \<noteq> firstSpender" "firstSpender \<noteq> thirdSpender"
  "thirdSpender \<noteq> secondSpender" "secondSpender \<noteq> thirdSpender"
  "thirdSpender \<noteq> []" "isHexString 40 thirdSpender"
  by (simp_all add: thirdSpender_def addr_defs isHexString_def)

lemma evaluateApproval_clock: "evaluateApproval t a = evaluateApproval 0 a"
  by (simp add: evaluateApproval_def checkStaleApproval_def Let_def split: option.splits)

lemma evaluateAll_aux:
  "map the (filter (\<lambda>result. result \<noteq> None)
     (map (\<lambda>(i, approval). evaluateApproval (clock i) approval) (enumerate n approvals)))
   = spec_evaluateAll (evaluateApproval 0) approvals"
proof (induction approvals arbitrary: n)
  case Nil
  show ?case by simp
next
  case (Cons a as)
  have "evaluateApproval (clock n) a = evaluateApproval 0 a"
    by (rule evaluateApproval_clock)
  with Cons.IH [of "Suc n"] show ?case
    by (cases "evaluateApproval 0 a") simp_all
qed

lemma evaluateAllApprovals_eq_spec:
  "evaluateAllApprovals clock approvals = spec_evaluateAll (evaluateApproval 0) approvals"
  unfolding evaluateAllApprovals_def by (rule evaluateAll_aux)

lemma spec_evaluateAll_map_filter:
  "spec_evaluateAll f xs = map the (filter (\<lambda>r. r \<noteq> None) (map f xs))"
  by (induction xs) (simp_all split: option.splits)

lemma evaluateApproval_cases:
  "evaluateApproval t a =
     (if amount a = UNLIMITED
      then Some \<lparr>shouldExecute = True, reason = ''Unlimited approval detected'',
                 action = Revoke, target = token a\<rparr>
      else if isRisky a
      then Some \<lparr>shouldExecute = True, reason = ''Risky approval detected'',
                 action = Revoke, target = token a\<rparr>
      else None)"
  by (simp add: addr_defs isHexString_def evaluateApproval_def checkUnlimitedApproval_def checkRiskyApproval_def
      checkStaleApproval_def Let_def)

lemma evaluateApproval_Some:
  "evaluateApproval t a = Some r \<Longrightarrow> action r = Revoke \<and> target r = token a"
  by (auto simp: evaluateApproval_cases split: if_splits)

text \<open>
  C8. \<^verbatim>\<open>evaluateAllApprovals\<close> is the map of \<^verbatim>\<open>evaluateApproval\<close> over the input with
  the \<^verbatim>\<open>null\<close> results filtered out; it agrees with the left-to-right reading of the
  specification, so the order of the input is kept; and its result does not depend on the
  clock readings, the only input from outside that it takes: two runs on the same list
  give the same list.
\<close>

theorem evaluateAllApprovals_is_map_filter:
  "evaluateAllApprovals clock approvals
     = map the (filter (\<lambda>r. r \<noteq> None) (map (evaluateApproval t) approvals))
   \<and> evaluateAllApprovals clock approvals = spec_evaluateAll (evaluateApproval t) approvals
   \<and> evaluateAllApprovals clock approvals = evaluateAllApprovals clock' approvals"
proof -
  have "evaluateApproval t = evaluateApproval 0"
    by (rule ext) (rule evaluateApproval_clock)
  then show ?thesis
    by (simp only: evaluateAllApprovals_eq_spec spec_evaluateAll_map_filter simp_thms)
qed

text \<open>
  C9. An approval flagged risky whose amount is not the unlimited one gets the revoke
  action of the risky rule (reason \<^verbatim>\<open>Risky approval detected\<close>, target its token); the
  unlimited rule is asked first and wins when both apply.
\<close>

theorem evaluateApproval_risky:
  "isRisky a \<Longrightarrow>
     evaluateApproval t a =
       (if amount a = UNLIMITED
        then Some \<lparr>shouldExecute = True, reason = ''Unlimited approval detected'',
                   action = Revoke, target = token a\<rparr>
        else Some \<lparr>shouldExecute = True, reason = ''Risky approval detected'',
                   action = Revoke, target = token a\<rparr>)"
  by (simp add: evaluateApproval_cases)

text \<open>
  C9, at the risky approval of the test file: it is risky, its amount is an ordinary one,
  and the result is the action of the risky rule.
\<close>

theorem evaluateApproval_risky_witness:
  "isRisky riskyApproval \<and> amount riskyApproval \<noteq> UNLIMITED
   \<and> evaluateApproval 0 riskyApproval =
       Some \<lparr>shouldExecute = True, reason = ''Risky approval detected'',
             action = Revoke, target = tokenA\<rparr>"
proof -
  have r: "isRisky riskyApproval" by (simp add: addr_defs isHexString_def riskyApproval_def)
  have n: "amount riskyApproval \<noteq> UNLIMITED" by (simp add: addr_defs isHexString_def riskyApproval_def UNLIMITED_def)
  have tk: "token riskyApproval = tokenA" by (simp add: addr_defs isHexString_def riskyApproval_def)
  from evaluateApproval_risky [OF r, of 0] r n tk show ?thesis by simp
qed

text \<open>
  C3, as stated, fails: an amount one below the maximum is above the threshold of the
  indexer's handler, yet the approval gets no action.
\<close>

theorem near_max_amount_counterexample:
  "amountValue (amount nearMaxApproval) = 2 ^ 256 - 2
   \<and> UNLIMITED_THRESHOLD \<le> amountValue (amount nearMaxApproval)
   \<and> evaluateApproval 0 nearMaxApproval = None"
proof -
  have v: "amountValue (amount nearMaxApproval) = 2 ^ 256 - 2"
    by (simp add: nearMaxApproval_def amountValue_def)
  have e: "evaluateApproval 0 nearMaxApproval = None"
    by (simp add: evaluateApproval_cases nearMaxApproval_def UNLIMITED_def)
  from v e show ?thesis by (simp add: UNLIMITED_THRESHOLD_def)
qed

text \<open>
  C3, amended. The unlimited rule fires exactly for the amount that is the decimal string
  of \<open>2 ^ 256 - 1\<close>: for such an approval, risky or not, the result is the revoke action
  with reason \<^verbatim>\<open>Unlimited approval detected\<close>, and no other amount gets that action.
\<close>

theorem evaluateApproval_unlimited:
  "(evaluateApproval t a =
      Some \<lparr>shouldExecute = True, reason = ''Unlimited approval detected'',
            action = Revoke, target = token a\<rparr>)
   = (amount a = UNLIMITED)"
  by (simp add: evaluateApproval_cases)

section \<open>Properties of the registry\<close>

lemma registry_inv_empty: "registry_inv emptyRegistry"
  by (simp add: registry_inv_def emptyRegistry_def)

lemma list_all_update:
  "list_all P al \<Longrightarrow> P (k, v) \<Longrightarrow> list_all P (AList.update k v al)"
  by (induction al) auto

lemma registry_inv_register:
  "registry_inv delegations \<Longrightarrow> registry_inv (register delegations d)"
  by (simp add: registry_inv_def register_def distinct_update list_all_update)

lemma map_of_idD:
  "list_all (\<lambda>(k, d). idD d = k) delegations \<Longrightarrow> map_of delegations k = Some d \<Longrightarrow> idD d = k"
  by (induction delegations) (auto split: if_splits)

lemma registry_inv_revoke:
  assumes "registry_inv delegations"
  shows "registry_inv (revoke delegations k)"
proof (cases "map_of delegations k")
  case None
  with assms show ?thesis by (simp add: revoke_def)
next
  case (Some d)
  from assms have la: "list_all (\<lambda>(k, d). idD d = k) delegations"
    by (simp add: registry_inv_def)
  from map_of_idD [OF la Some] have "idD (d\<lparr>isActive := False\<rparr>) = k" by simp
  with la have "list_all (\<lambda>(k, d). idD d = k) (AList.update k (d\<lparr>isActive := False\<rparr>) delegations)"
    by (simp add: list_all_update)
  with assms Some show ?thesis
    by (simp add: registry_inv_def revoke_def distinct_update)
qed

lemma value_at_updated_key:
  assumes "distinct (map fst al)" and "(k, x) \<in> set (AList.update k v al)"
  shows "x = v"
proof -
  from assms have "map_of (AList.update k v al) k = Some x"
    by (simp add: distinct_update)
  then show ?thesis by (simp add: update_conv')
qed

lemma revoke_not_active:
  assumes "registry_inv delegations"
  shows "k \<notin> idD ` set (getActiveDelegations (revoke delegations k) dlg)"
proof
  assume "k \<in> idD ` set (getActiveDelegations (revoke delegations k) dlg)"
  then obtain x where x: "x \<in> set (getActiveDelegations (revoke delegations k) dlg)" "idD x = k"
    by auto
  then obtain k' where k': "(k', x) \<in> set (revoke delegations k)" and act: "isActive x"
    by (auto simp: getActiveDelegations_def)
  have inv: "registry_inv (revoke delegations k)"
    by (rule registry_inv_revoke [OF assms])
  with k' have "idD x = k'"
    by (auto simp: registry_inv_def list_all_iff)
  with x have kk: "k' = k" by simp
  show False
  proof (cases "map_of delegations k")
    case None
    then have "revoke delegations k = delegations" by (simp add: revoke_def)
    with k' kk have "(k, x) \<in> set delegations" by simp
    with assms have "map_of delegations k = Some x"
      by (simp add: registry_inv_def)
    with None show False by simp
  next
    case (Some d)
    then have "revoke delegations k = AList.update k (d\<lparr>isActive := False\<rparr>) delegations"
      by (simp add: revoke_def)
    with k' kk assms have "x = d\<lparr>isActive := False\<rparr>"
      by (auto simp: registry_inv_def dest: value_at_updated_key)
    with act show False by simp
  qed
qed

lemma revoke_idem: "revoke (revoke delegations k) k = revoke delegations k"
  by (cases "map_of delegations k") (simp_all add: revoke_def update_conv')

lemma revoke_inactive:
  "map_of delegations k = Some d \<Longrightarrow> \<not> isActive d \<Longrightarrow> revoke delegations k = delegations"
  by (simp add: revoke_def map_of_eq_Some_iff update_triv)

text \<open>
  C5. In a registry filled by \<^verbatim>\<open>register\<close>, after \<^verbatim>\<open>revoke\<close> of an id the list of
  active delegations, for whatever delegate, has no record with that id. \<^verbatim>\<open>revoke\<close> has
  no failing path; a second \<^verbatim>\<open>revoke\<close> of the id changes nothing, and neither does
  \<^verbatim>\<open>revoke\<close> of an id that is unknown or whose record is inactive already.
\<close>

theorem revoke_absent_and_idempotent:
  assumes "registry_inv delegations"
  shows "k \<notin> idD ` set (getActiveDelegations (revoke delegations k) dlg)
       \<and> revoke (revoke delegations k) k = revoke delegations k
       \<and> (map_of delegations k = None \<longrightarrow> revoke delegations k = delegations)
       \<and> (\<forall>d. map_of delegations k = Some d \<and> \<not> isActive d \<longrightarrow> revoke delegations k = delegations)
       \<and> registry_inv (revoke delegations k)"
proof -
  have unknown: "map_of delegations k = None \<longrightarrow> revoke delegations k = delegations"
    by (simp add: revoke_def)
  have inactive: "\<forall>d. map_of delegations k = Some d \<and> \<not> isActive d
      \<longrightarrow> revoke delegations k = delegations"
    by (blast intro: revoke_inactive)
  from revoke_not_active [OF assms] revoke_idem unknown inactive registry_inv_revoke [OF assms]
  show ?thesis by blast
qed

text \<open>
  C5, at a registry with two delegations of one delegate: both are active, and after
  \<^verbatim>\<open>revoke\<close> of the first only the second is; \<^verbatim>\<open>revoke\<close> of an unknown id keeps the
  registry as it is.
\<close>

theorem revoke_absent_and_idempotent_witness:
  "registry_inv (register (register emptyRegistry someDelegation) laterDelegation)
   \<and> getActiveDelegations (register (register emptyRegistry someDelegation) laterDelegation) agentAddr
       = [someDelegation, laterDelegation]
   \<and> getActiveDelegations
        (revoke (register (register emptyRegistry someDelegation) laterDelegation)
           (idD someDelegation)) agentAddr
       = [laterDelegation]
   \<and> idD someDelegation \<notin> idD ` set (getActiveDelegations
        (revoke (register (register emptyRegistry someDelegation) laterDelegation)
           (idD someDelegation)) agentAddr)
   \<and> revoke (register (register emptyRegistry someDelegation) laterDelegation) ''unknown''
       = register (register emptyRegistry someDelegation) laterDelegation"
proof -
  let ?reg = "register (register emptyRegistry someDelegation) laterDelegation"
  have inv: "registry_inv ?reg"
    by (intro registry_inv_register registry_inv_empty)
  have reg: "?reg = [(idD someDelegation, someDelegation), (idD laterDelegation, laterDelegation)]"
    by (simp add: addr_defs isHexString_def register_def emptyRegistry_def someDelegation_def laterDelegation_def)
  have unk: "map_of ?reg ''unknown'' = None"
    unfolding reg by (simp add: addr_defs isHexString_def someDelegation_def laterDelegation_def)
  have act: "getActiveDelegations ?reg agentAddr = [someDelegation, laterDelegation]"
    unfolding reg by (simp add: addr_defs isHexString_def getActiveDelegations_def someDelegation_def laterDelegation_def)
  have rev: "getActiveDelegations (revoke ?reg (idD someDelegation)) agentAddr = [laterDelegation]"
    unfolding reg by (simp add: addr_defs isHexString_def getActiveDelegations_def revoke_def someDelegation_def laterDelegation_def)
  from revoke_absent_and_idempotent [OF inv, of "idD someDelegation" agentAddr]
    revoke_absent_and_idempotent [OF inv, of "''unknown''" agentAddr] inv unk act rev
  show ?thesis by simp
qed

text \<open>
  C6, as stated, fails: a record with empty delegator, empty delegate and empty scope is
  stored like any other; and two records of one delegator and one delegate, with
  different ids, are both kept, so the key is not the pair.
\<close>

theorem register_empty_counterexample:
  "delegator emptyDelegation = [] \<and> delegate emptyDelegation = []
   \<and> targets (scope emptyDelegation) = []
   \<and> register emptyRegistry emptyDelegation = [(''--1700000000002'', emptyDelegation)]
   \<and> delegator laterDelegation = delegator someDelegation
   \<and> delegate laterDelegation = delegate someDelegation
   \<and> map snd (register (register emptyRegistry someDelegation) laterDelegation)
       = [someDelegation, laterDelegation]"
  by (simp add: addr_defs isHexString_def register_def emptyRegistry_def emptyDelegation_def someDelegation_def
      laterDelegation_def)

text \<open>
  C6, amended. \<^verbatim>\<open>register\<close> checks nothing and never fails: whatever the record is, it
  is stored afterwards under its id, every other id keeps what it had, and the record is
  among the values of the registry.
\<close>

theorem register_stores_under_id:
  "map_of (register delegations d) = (map_of delegations)(idD d \<mapsto> d)
   \<and> d \<in> snd ` set (register delegations d)"
proof -
  have m: "map_of (register delegations d) = (map_of delegations)(idD d \<mapsto> d)"
    by (simp add: register_def update_conv')
  then have "map_of (register delegations d) (idD d) = Some d" by simp
  then have "(idD d, d) \<in> set (register delegations d)" by (rule map_of_SomeD)
  then have "d \<in> snd ` set (register delegations d)" by force
  with m show ?thesis by simp
qed

section \<open>Properties of the executor\<close>

lemma executeLoop_eq:
  "executeLoop w sa d results st rs =
     (results @ replicate (length (filter (\<lambda>r. encodeFunctionData w (spenderR r)) rs)) placeholderHash,
      st\<lparr>submitted := submitted st @
         map (\<lambda>r. \<lparr>smartAccountC = sa, tokenC = tokenR r, spenderC = spenderR r, delegationC = d\<rparr>)
           (filter (\<lambda>r. encodeFunctionData w (spenderR r)) rs)\<rparr>)"
proof (induction rs arbitrary: results st)
  case Nil
  show ?case by simp
next
  case (Cons r rs)
  show ?case
    by (simp add: revokeApproval_def Cons.IH replicate_app_Cons_same)
qed

lemma getExecutor_submitted: "submitted (snd (getExecutor w st)) = submitted st"
  by (simp add: getExecutor_def split: option.splits)

text \<open>
  C1, as stated, fails: the same revocation (one delegation, one token, one spender) handed
  over twice is sent through \<^verbatim>\<open>revokeApproval\<close> twice and yields two transaction
  references. The executor keeps no execution record and no key.
\<close>

theorem execute_twice_counterexample:
  "executeMultipleRevocations someWorld freshExecutor walletAddr
     [\<lparr>tokenR = tokenA, spenderR = firstSpender\<rparr>, \<lparr>tokenR = tokenA, spenderR = firstSpender\<rparr>]
     someDelegation
   = ([placeholderHash, placeholderHash],
      \<lparr>executor = None,
       submitted =
         [\<lparr>smartAccountC = walletAddr, tokenC = tokenA, spenderC = firstSpender,
           delegationC = someDelegation\<rparr>,
          \<lparr>smartAccountC = walletAddr, tokenC = tokenA, spenderC = firstSpender,
           delegationC = someDelegation\<rparr>]\<rparr>)"
  by (simp add: fixture_facts executeMultipleRevocations_def revokeApproval_def someWorld_def
      freshExecutor_def)

text \<open>
  C1, amended. \<^verbatim>\<open>executeMultipleRevocations\<close> sends every element of the revocation
  list, in order and without looking for duplicates, through \<^verbatim>\<open>revokeApproval\<close>: each
  element whose spender the encoder accepts adds one call and one placeholder reference,
  and an element it rejects is skipped.
\<close>

theorem executeMultipleRevocations_submits_each:
  "executeMultipleRevocations w st smartAccount revocations delegation =
     (replicate (length (filter (\<lambda>r. encodeFunctionData w (spenderR r)) revocations))
        placeholderHash,
      st\<lparr>submitted := submitted st @
         map (\<lambda>r. \<lparr>smartAccountC = smartAccount, tokenC = tokenR r, spenderC = spenderR r,
                     delegationC = delegation\<rparr>)
           (filter (\<lambda>r. encodeFunctionData w (spenderR r)) revocations)\<rparr>)"
  by (simp add: executeMultipleRevocations_def executeLoop_eq)

section \<open>Properties of the monitor\<close>

lemma truthy_iff: "truthy s = (\<exists>x. s = Some x \<and> x \<noteq> [])"
  by (cases s) auto

lemma revocationsOf_Nil: "revocationsOf approvals [] = []"
  by (simp add: revocationsOf_def)

lemma revocationsOf_mem:
  "r \<in> set (revocationsOf approvals actions) \<Longrightarrow>
     spenderFor approvals (tokenR r) = Some (spenderR r) \<and> spenderR r \<noteq> []"
  by (auto simp: revocationsOf_def truthy_iff)

lemma checkWallet_submitted:
  assumes "fst (getExecutor w st) = Inr ()"
  shows "submitted (snd (checkWallet w response clock st wa d)) =
     submitted st @
       map (\<lambda>r. \<lparr>smartAccountC = wa, tokenC = tokenR r, spenderC = spenderR r, delegationC = d\<rparr>)
         (filter (\<lambda>r. encodeFunctionData w (spenderR r))
           (revocationsOf (getAllApprovals response)
             (evaluateAllApprovals clock (getAllApprovals response))))"
proof -
  obtain st1 where g: "getExecutor w st = (Inr (), st1)"
    using assms by (cases "getExecutor w st") auto
  then have s1: "submitted st1 = submitted st"
    using getExecutor_submitted [of w st] by simp
  show ?thesis
    by (simp add: checkWallet_def Let_def g s1 executeMultipleRevocations_def executeLoop_eq
        revocationsOf_Nil)
qed

text \<open>
  C2, as stated, fails: the scope of the delegation names the token \<open>tokenB\<close> only, the
  unlimited approval is on the token \<open>tokenA\<close>, and its revocation is sent through
  \<^verbatim>\<open>revokeApproval\<close> all the same.
\<close>

theorem out_of_scope_counterexample:
  "tokenA \<notin> set (targets (scope someDelegation))
   \<and> checkWallet someWorld (Inr [unlimitedApproval]) (\<lambda>i. 0) freshExecutor walletAddr someDelegation
     = (Executed 1,
        \<lparr>executor = Some agentKey,
         submitted =
           [\<lparr>smartAccountC = walletAddr, tokenC = tokenA, spenderC = firstSpender,
             delegationC = someDelegation\<rparr>]\<rparr>)"
proof -
  have sc: "tokenA \<notin> set (targets (scope someDelegation))"
    by (simp add: fixture_facts someDelegation_def)
  have ev: "evaluateAllApprovals (\<lambda>i. 0) [unlimitedApproval] =
      [\<lparr>shouldExecute = True, reason = ''Unlimited approval detected'',
        action = Revoke, target = tokenA\<rparr>]"
    by (simp add: fixture_facts evaluateAllApprovals_eq_spec evaluateApproval_cases unlimitedApproval_def
        UNLIMITED_def)
  have rv: "revocationsOf [unlimitedApproval]
      [\<lparr>shouldExecute = True, reason = ''Unlimited approval detected'',
        action = Revoke, target = tokenA\<rparr>]
      = [\<lparr>tokenR = tokenA, spenderR = firstSpender\<rparr>]"
    by (simp add: fixture_facts revocationsOf_def spenderFor_def unlimitedApproval_def)
  have "checkWallet someWorld (Inr [unlimitedApproval]) (\<lambda>i. 0) freshExecutor walletAddr someDelegation
     = (Executed 1,
        \<lparr>executor = Some agentKey,
         submitted =
           [\<lparr>smartAccountC = walletAddr, tokenC = tokenA, spenderC = firstSpender,
             delegationC = someDelegation\<rparr>]\<rparr>)"
    by (simp add: fixture_facts checkWallet_def getAllApprovals_def ev rv getExecutor_def
        executeMultipleRevocations_def revokeApproval_def someWorld_def freshExecutor_def)
  with sc show ?thesis by simp
qed

text \<open>
  C2, amended. Neither \<^verbatim>\<open>checkWallet\<close> nor \<^verbatim>\<open>revokeApproval\<close> reads the scope of the
  delegation. When the executor is available, the calls that a \<^verbatim>\<open>checkWallet\<close> adds are
  exactly the revocation requests built from the fetched approvals whose spender the
  encoder accepts, in order, whatever the targets of the scope are; the delegation is only
  carried along in the call.
\<close>

theorem checkWallet_submits_whatever_the_scope:
  assumes "fst (getExecutor w st) = Inr ()"
  shows "submitted (snd (checkWallet w response clock st walletAddress delegation)) =
     submitted st @
       map (\<lambda>r. \<lparr>smartAccountC = walletAddress, tokenC = tokenR r, spenderC = spenderR r,
                   delegationC = delegation\<rparr>)
         (filter (\<lambda>r. encodeFunctionData w (spenderR r))
           (revocationsOf (getAllApprovals response)
             (evaluateAllApprovals clock (getAllApprovals response))))"
  using assms by (rule checkWallet_submitted)

text \<open>
  C2, amended, at the limited and the unlimited approval of the test file under a
  delegation whose scope has no target at all: the executor is available and the
  revocation of the unlimited approval is the one call added.
\<close>

theorem checkWallet_submits_whatever_the_scope_witness:
  "fst (getExecutor someWorld freshExecutor) = Inr ()
   \<and> targets (scope emptyDelegation) = []
   \<and> submitted (snd (checkWallet someWorld (Inr [limitedApproval, unlimitedApproval]) (\<lambda>i. 0)
        freshExecutor walletAddr emptyDelegation))
     = [\<lparr>smartAccountC = walletAddr, tokenC = tokenA, spenderC = firstSpender,
         delegationC = emptyDelegation\<rparr>]"
proof -
  have g: "fst (getExecutor someWorld freshExecutor) = Inr ()"
    by (simp add: fixture_facts getExecutor_def someWorld_def freshExecutor_def)
  have sc: "targets (scope emptyDelegation) = []"
    by (simp add: fixture_facts emptyDelegation_def)
  have ev: "evaluateAllApprovals (\<lambda>i. 0) [limitedApproval, unlimitedApproval] =
      [\<lparr>shouldExecute = True, reason = ''Unlimited approval detected'',
        action = Revoke, target = tokenA\<rparr>]"
    by (simp add: fixture_facts evaluateAllApprovals_eq_spec evaluateApproval_cases unlimitedApproval_def
        limitedApproval_def UNLIMITED_def)
  have rv: "revocationsOf [limitedApproval, unlimitedApproval]
      [\<lparr>shouldExecute = True, reason = ''Unlimited approval detected'',
        action = Revoke, target = tokenA\<rparr>]
      = [\<lparr>tokenR = tokenA, spenderR = firstSpender\<rparr>]"
    by (simp add: fixture_facts revocationsOf_def spenderFor_def unlimitedApproval_def limitedApproval_def)
  have en: "encodeFunctionData someWorld = isHexString 40"
    by (simp add: fixture_facts someWorld_def)
  have fr: "submitted freshExecutor = []"
    by (simp add: freshExecutor_def)
  from checkWallet_submits_whatever_the_scope [OF g,
      of "Inr [limitedApproval, unlimitedApproval]" "\<lambda>i. 0" walletAddr emptyDelegation]
  have "submitted (snd (checkWallet someWorld (Inr [limitedApproval, unlimitedApproval]) (\<lambda>i. 0)
        freshExecutor walletAddr emptyDelegation))
     = [\<lparr>smartAccountC = walletAddr, tokenC = tokenA, spenderC = firstSpender,
         delegationC = emptyDelegation\<rparr>]"
    by (simp add: getAllApprovals_def ev rv en fr fixture_facts)
  with g sc show ?thesis by simp
qed

text \<open>
  C7, as stated, fails: a query that fails and a query that returns no approval end the
  same way, with \<^verbatim>\<open>No actions needed\<close> and an unchanged executor.
\<close>

theorem indexer_failure_counterexample:
  "checkWallet someWorld (Inl Thrown) (\<lambda>i. 0) freshExecutor walletAddr someDelegation
     = (NoActionsNeeded, freshExecutor)
   \<and> checkWallet someWorld (Inr []) (\<lambda>i. 0) freshExecutor walletAddr someDelegation
     = (NoActionsNeeded, freshExecutor)"
  by (simp add: checkWallet_def getAllApprovals_def evaluateAllApprovals_def)

text \<open>
  C7, amended. \<^verbatim>\<open>getAllApprovals\<close> catches a failure of the indexer query, logs it and
  returns the empty list: for that delegation the cycle ends with
  \<^verbatim>\<open>No actions needed\<close>, nothing is submitted and nothing is retried, exactly as
  after a query that returned no approval.
\<close>

theorem checkWallet_failed_query_is_empty:
  "getAllApprovals (Inl err) = []
   \<and> checkWallet w (Inl err) clock st walletAddress delegation = (NoActionsNeeded, st)
   \<and> checkWallet w (Inl err) clock st walletAddress delegation
       = checkWallet w (Inr []) clock st walletAddress delegation"
  by (simp add: checkWallet_def getAllApprovals_def evaluateAllApprovals_def)

lemma revocationsOf_spec:
  "filter (\<lambda>r. tokenR r = t) (revocationsOf apps (spec_evaluateAll (evaluateApproval 0) xs)) =
     (if truthy (spenderFor apps t)
      then map (\<lambda>a. \<lparr>tokenR = t, spenderR = the (spenderFor apps t)\<rparr>)
             (filter (\<lambda>a. token a = t \<and> evaluateApproval 0 a \<noteq> None) xs)
      else [])"
proof (induction xs)
  case Nil
  show ?case by (simp add: revocationsOf_def)
next
  case (Cons a xs)
  show ?case
  proof (cases "evaluateApproval 0 a")
    case None
    with Cons show ?thesis by simp
  next
    case (Some r)
    from evaluateApproval_Some [OF Some] have r: "action r = Revoke" "target r = token a"
      by simp_all
    have step: "revocationsOf apps (r # rest) =
       (if truthy (spenderFor apps (token a))
        then [\<lparr>tokenR = token a, spenderR = the (spenderFor apps (token a))\<rparr>] else [])
       @ revocationsOf apps rest" for rest
      by (simp add: revocationsOf_def r)
    from Cons Some show ?thesis
      by (auto simp: step)
  qed
qed

lemma two_in_filter:
  assumes "x \<in> set xs" "y \<in> set xs" "x \<noteq> y" "P x" "P y"
  shows "2 \<le> length (filter P xs)"
proof -
  have "{x, y} \<subseteq> set (filter P xs)" using assms by simp
  then have "card {x, y} \<le> card (set (filter P xs))"
    by (rule card_mono [OF finite_set])
  also have "\<dots> \<le> length (filter P xs)" by (rule card_length)
  finally show ?thesis using assms(3) by simp
qed

lemma requests_for_token:
  "filter (\<lambda>r. tokenR r = t) (revocationsOf approvals (evaluateAllApprovals clock approvals)) =
     (case spenderFor approvals t of
        None \<Rightarrow> []
      | Some s \<Rightarrow>
          if s = [] then []
          else replicate
                 (length (filter (\<lambda>a. token a = t \<and> evaluateApproval t0 a \<noteq> None) approvals))
                 \<lparr>tokenR = t, spenderR = s\<rparr>)"
proof -
  have e: "evaluateApproval t0 = evaluateApproval 0"
    by (rule ext) (rule evaluateApproval_clock)
  show ?thesis
    unfolding evaluateAllApprovals_eq_spec revocationsOf_spec e
    by (cases "spenderFor approvals t") (simp_all add: map_replicate_const)
qed

lemma added_calls_for_token:
  assumes "fst (getExecutor w st) = Inr ()"
  shows "filter (\<lambda>c. tokenC c = t)
       (drop (length (submitted st)) (submitted (snd (checkWallet w (Inr approvals) clock st wa d))))
     = map (\<lambda>r. \<lparr>smartAccountC = wa, tokenC = tokenR r, spenderC = spenderR r, delegationC = d\<rparr>)
         (filter (\<lambda>r. encodeFunctionData w (spenderR r))
           (filter (\<lambda>r. tokenR r = t)
             (revocationsOf approvals (evaluateAllApprovals clock approvals))))"
proof -
  have comm: "filter (\<lambda>r. tokenR r = t) (filter (\<lambda>r. encodeFunctionData w (spenderR r)) rs)
      = filter (\<lambda>r. encodeFunctionData w (spenderR r)) (filter (\<lambda>r. tokenR r = t) rs)" for rs
    by (simp add: conj_commute)
  show ?thesis
    unfolding checkWallet_submitted [OF assms]
    by (simp add: getAllApprovals_def filter_map o_def comm del: filter_filter)
qed

text \<open>
  C10, as stated, fails: the wallet has an ordinary approval of the token to a third
  spender, fetched first, and then two unlimited approvals of the token, to the first and
  to the second spender. Both revocation requests, and both calls of \<^verbatim>\<open>checkWallet\<close>,
  name the third spender, not the spender of the first of the two approvals.
\<close>

theorem earlier_approval_counterexample:
  "unlimitedApproval \<in> set [earlierApproval, unlimitedApproval, secondSpenderApproval]
   \<and> secondSpenderApproval \<in> set [earlierApproval, unlimitedApproval, secondSpenderApproval]
   \<and> token unlimitedApproval = token secondSpenderApproval
   \<and> spender unlimitedApproval = firstSpender
   \<and> spender secondSpenderApproval = secondSpender
   \<and> firstSpender \<noteq> secondSpender
   \<and> evaluateApproval 0 unlimitedApproval \<noteq> None
   \<and> evaluateApproval 0 secondSpenderApproval \<noteq> None
   \<and> revocationsOf [earlierApproval, unlimitedApproval, secondSpenderApproval]
        (evaluateAllApprovals (\<lambda>i. 0) [earlierApproval, unlimitedApproval, secondSpenderApproval])
      = [\<lparr>tokenR = tokenA, spenderR = thirdSpender\<rparr>, \<lparr>tokenR = tokenA, spenderR = thirdSpender\<rparr>]
   \<and> thirdSpender \<noteq> firstSpender
   \<and> submitted (snd (checkWallet someWorld
        (Inr [earlierApproval, unlimitedApproval, secondSpenderApproval]) (\<lambda>i. 0) freshExecutor
        walletAddr someDelegation))
      = [\<lparr>smartAccountC = walletAddr, tokenC = tokenA, spenderC = thirdSpender,
          delegationC = someDelegation\<rparr>,
         \<lparr>smartAccountC = walletAddr, tokenC = tokenA, spenderC = thirdSpender,
          delegationC = someDelegation\<rparr>]"
proof -
  let ?apps = "[earlierApproval, unlimitedApproval, secondSpenderApproval]"
  have e1: "evaluateApproval 0 unlimitedApproval \<noteq> None"
    by (simp add: evaluateApproval_cases unlimitedApproval_def UNLIMITED_def)
  have e2: "evaluateApproval 0 secondSpenderApproval \<noteq> None"
    by (simp add: evaluateApproval_cases secondSpenderApproval_def UNLIMITED_def)
  have ev: "evaluateAllApprovals (\<lambda>i. 0) ?apps =
      [\<lparr>shouldExecute = True, reason = ''Unlimited approval detected'',
        action = Revoke, target = tokenA\<rparr>,
       \<lparr>shouldExecute = True, reason = ''Unlimited approval detected'',
        action = Revoke, target = tokenA\<rparr>]"
    by (simp add: evaluateAllApprovals_eq_spec evaluateApproval_cases unlimitedApproval_def
        secondSpenderApproval_def earlierApproval_def UNLIMITED_def)
  have rv: "revocationsOf ?apps (evaluateAllApprovals (\<lambda>i. 0) ?apps)
      = [\<lparr>tokenR = tokenA, spenderR = thirdSpender\<rparr>, \<lparr>tokenR = tokenA, spenderR = thirdSpender\<rparr>]"
    unfolding ev
    by (simp add: revocationsOf_def spenderFor_def earlierApproval_def third_facts)
  have cw: "submitted (snd (checkWallet someWorld (Inr ?apps) (\<lambda>i. 0) freshExecutor
        walletAddr someDelegation))
      = [\<lparr>smartAccountC = walletAddr, tokenC = tokenA, spenderC = thirdSpender,
          delegationC = someDelegation\<rparr>,
         \<lparr>smartAccountC = walletAddr, tokenC = tokenA, spenderC = thirdSpender,
          delegationC = someDelegation\<rparr>]"
    by (simp add: checkWallet_def getAllApprovals_def rv [unfolded ev] ev getExecutor_def
        executeMultipleRevocations_def revokeApproval_def someWorld_def freshExecutor_def
        fixture_facts third_facts)
  from e1 e2 rv cw show ?thesis
    by (simp add: unlimitedApproval_def secondSpenderApproval_def fixture_facts third_facts)
qed

text \<open>
  C10, amended. The spender of a revocation request is that of the first fetched approval
  of the request's token, whether or not that approval is one of those with an action.
  Let two approvals of the token \<open>t\<close>, to different spenders, both have an action, and
  let \<open>a0\<close> be the first fetched approval of \<open>t\<close>. Then there are at least two approvals
  of \<open>t\<close> with an action; the requests for \<open>t\<close> are one copy of the pair of \<open>t\<close> and
  the spender of \<open>a0\<close> for each of them (none when that spender is the empty string);
  when the executor is available, the calls that \<^verbatim>\<open>checkWallet\<close> adds for \<open>t\<close> are
  those same copies (none when the encoder rejects the spender); the spender of at least
  one of the two approvals differs from that of \<open>a0\<close>; and no request names \<open>t\<close> with a
  spender other than that of \<open>a0\<close>.
\<close>

theorem revocations_carry_first_fetched_spender:
  assumes a1: "a1 \<in> set approvals" "token a1 = t" "evaluateApproval t1 a1 \<noteq> None"
    and a2: "a2 \<in> set approvals" "token a2 = t" "evaluateApproval t2 a2 \<noteq> None"
    and ne: "spender a1 \<noteq> spender a2"
  shows "\<exists>a0. find (\<lambda>app. token app = t) approvals = Some a0
       \<and> 2 \<le> length (filter (\<lambda>a. token a = t \<and> evaluateApproval t0 a \<noteq> None) approvals)
       \<and> filter (\<lambda>r. tokenR r = t) (revocationsOf approvals (evaluateAllApprovals clock approvals))
           = (if spender a0 = [] then []
              else replicate
                     (length (filter (\<lambda>a. token a = t \<and> evaluateApproval t0 a \<noteq> None) approvals))
                     \<lparr>tokenR = t, spenderR = spender a0\<rparr>)
       \<and> (fst (getExecutor w st) = Inr () \<longrightarrow>
            filter (\<lambda>c. tokenC c = t)
              (drop (length (submitted st))
                 (submitted (snd (checkWallet w (Inr approvals) clock st wa d))))
            = (if spender a0 = [] \<or> \<not> encodeFunctionData w (spender a0) then []
               else replicate
                      (length (filter (\<lambda>a. token a = t \<and> evaluateApproval t0 a \<noteq> None) approvals))
                      \<lparr>smartAccountC = wa, tokenC = t, spenderC = spender a0, delegationC = d\<rparr>))
       \<and> (spender a1 \<noteq> spender a0 \<or> spender a2 \<noteq> spender a0)
       \<and> (\<forall>s'. s' \<noteq> spender a0 \<longrightarrow>
            \<lparr>tokenR = t, spenderR = s'\<rparr>
              \<notin> set (revocationsOf approvals (evaluateAllApprovals clock approvals)))"
proof -
  let ?revs = "revocationsOf approvals (evaluateAllApprovals clock approvals)"
  let ?n = "length (filter (\<lambda>a. token a = t \<and> evaluateApproval t0 a \<noteq> None) approvals)"
  from a1(1,2) obtain a0 where a0: "find (\<lambda>app. token app = t) approvals = Some a0"
    by (cases "find (\<lambda>app. token app = t) approvals") (auto simp: find_None_iff)
  then have s: "spenderFor approvals t = Some (spender a0)"
    by (simp add: spenderFor_def)
  have e1: "evaluateApproval t0 a1 \<noteq> None"
    using a1(3) evaluateApproval_clock [of t1 a1] evaluateApproval_clock [of t0 a1] by simp
  have e2: "evaluateApproval t0 a2 \<noteq> None"
    using a2(3) evaluateApproval_clock [of t2 a2] evaluateApproval_clock [of t0 a2] by simp
  from ne have neq: "a1 \<noteq> a2" by auto
  have n: "2 \<le> ?n"
    by (rule two_in_filter [OF a1(1) a2(1) neq]) (simp_all add: a1 a2 e1 e2)
  have req: "filter (\<lambda>r. tokenR r = t) ?revs
      = (if spender a0 = [] then [] else replicate ?n \<lparr>tokenR = t, spenderR = spender a0\<rparr>)"
    using requests_for_token [of t approvals clock t0] s by simp
  have calls: "filter (\<lambda>c. tokenC c = t)
        (drop (length (submitted st)) (submitted (snd (checkWallet w (Inr approvals) clock st wa d))))
      = (if spender a0 = [] \<or> \<not> encodeFunctionData w (spender a0) then []
         else replicate ?n
                \<lparr>smartAccountC = wa, tokenC = t, spenderC = spender a0, delegationC = d\<rparr>)"
    if g: "fst (getExecutor w st) = Inr ()"
    unfolding added_calls_for_token [OF g] req by simp
  have other: "\<lparr>tokenR = t, spenderR = s'\<rparr> \<notin> set ?revs" if "s' \<noteq> spender a0" for s'
  proof
    assume "\<lparr>tokenR = t, spenderR = s'\<rparr> \<in> set ?revs"
    from revocationsOf_mem [OF this] s that show False by simp
  qed
  from ne have "spender a1 \<noteq> spender a0 \<or> spender a2 \<noteq> spender a0" by auto
  with a0 n req calls other show ?thesis by blast
qed

text \<open>
  C10, amended, at two unlimited approvals of the token \<open>tokenA\<close>, the first to
  \<open>firstSpender\<close> and the second to \<open>secondSpender\<close>: the first fetched approval of the
  token is the first of the two, both requests and both calls name \<open>firstSpender\<close>, and
  none names \<open>secondSpender\<close>.
\<close>

theorem revocations_carry_first_fetched_spender_witness:
  "unlimitedApproval \<in> set [unlimitedApproval, secondSpenderApproval]
   \<and> token unlimitedApproval = tokenA
   \<and> evaluateApproval 0 unlimitedApproval \<noteq> None
   \<and> secondSpenderApproval \<in> set [unlimitedApproval, secondSpenderApproval]
   \<and> token secondSpenderApproval = tokenA
   \<and> evaluateApproval 0 secondSpenderApproval \<noteq> None
   \<and> spender unlimitedApproval \<noteq> spender secondSpenderApproval
   \<and> fst (getExecutor someWorld freshExecutor) = Inr ()
   \<and> revocationsOf [unlimitedApproval, secondSpenderApproval]
        (evaluateAllApprovals (\<lambda>i. 0) [unlimitedApproval, secondSpenderApproval])
      = [\<lparr>tokenR = tokenA, spenderR = firstSpender\<rparr>, \<lparr>tokenR = tokenA, spenderR = firstSpender\<rparr>]
   \<and> filter (\<lambda>c. tokenC c = tokenA)
        (drop (length (submitted freshExecutor))
          (submitted (snd (checkWallet someWorld (Inr [unlimitedApproval, secondSpenderApproval])
             (\<lambda>i. 0) freshExecutor walletAddr someDelegation))))
      = [\<lparr>smartAccountC = walletAddr, tokenC = tokenA, spenderC = firstSpender,
          delegationC = someDelegation\<rparr>,
         \<lparr>smartAccountC = walletAddr, tokenC = tokenA, spenderC = firstSpender,
          delegationC = someDelegation\<rparr>]
   \<and> \<lparr>tokenR = tokenA, spenderR = secondSpender\<rparr>
        \<notin> set (revocationsOf [unlimitedApproval, secondSpenderApproval]
                 (evaluateAllApprovals (\<lambda>i. 0) [unlimitedApproval, secondSpenderApproval]))"
proof -
  let ?apps = "[unlimitedApproval, secondSpenderApproval]"
  have m1: "unlimitedApproval \<in> set ?apps" by simp
  have m2: "secondSpenderApproval \<in> set ?apps" by simp
  have k1: "token unlimitedApproval = tokenA" by (simp add: unlimitedApproval_def)
  have k2: "token secondSpenderApproval = tokenA" by (simp add: secondSpenderApproval_def)
  have e1: "evaluateApproval 0 unlimitedApproval \<noteq> None"
    by (simp add: evaluateApproval_cases unlimitedApproval_def UNLIMITED_def)
  have e2: "evaluateApproval 0 secondSpenderApproval \<noteq> None"
    by (simp add: evaluateApproval_cases secondSpenderApproval_def UNLIMITED_def)
  have sp: "spender unlimitedApproval \<noteq> spender secondSpenderApproval"
    by (simp add: secondSpenderApproval_def unlimitedApproval_def fixture_facts)
  have g: "fst (getExecutor someWorld freshExecutor) = Inr ()"
    by (simp add: getExecutor_def someWorld_def freshExecutor_def fixture_facts)
  have sf: "find (\<lambda>app. token app = tokenA) ?apps = Some unlimitedApproval"
    by (simp add: unlimitedApproval_def)
  have s1: "spender unlimitedApproval = firstSpender"
    by (simp add: unlimitedApproval_def)
  have n: "length (filter (\<lambda>a. token a = tokenA \<and> evaluateApproval 0 a \<noteq> None) ?apps) = 2"
    by (simp add: k1 k2 e1 e2)
  have en: "encodeFunctionData someWorld firstSpender"
    by (simp add: someWorld_def fixture_facts)
  have tok: "filter (\<lambda>r. tokenR r = tokenA) (revocationsOf ?apps (evaluateAllApprovals (\<lambda>i. 0) ?apps))
      = revocationsOf ?apps (evaluateAllApprovals (\<lambda>i. 0) ?apps)"
    by (simp add: evaluateAllApprovals_eq_spec evaluateApproval_cases revocationsOf_def
        unlimitedApproval_def secondSpenderApproval_def UNLIMITED_def)
  from revocations_carry_first_fetched_spender [OF m1 k1 e1 m2 k2 e2 sp,
      of 0 "\<lambda>i. 0" someWorld freshExecutor walletAddr someDelegation]
  have "filter (\<lambda>r. tokenR r = tokenA) (revocationsOf ?apps (evaluateAllApprovals (\<lambda>i. 0) ?apps))
          = replicate 2 \<lparr>tokenR = tokenA, spenderR = firstSpender\<rparr>
      \<and> filter (\<lambda>c. tokenC c = tokenA)
         (drop (length (submitted freshExecutor))
           (submitted (snd (checkWallet someWorld (Inr ?apps) (\<lambda>i. 0) freshExecutor walletAddr
              someDelegation))))
          = replicate 2 \<lparr>smartAccountC = walletAddr, tokenC = tokenA, spenderC = firstSpender,
              delegationC = someDelegation\<rparr>
      \<and> \<lparr>tokenR = tokenA, spenderR = secondSpender\<rparr>
          \<notin> set (revocationsOf ?apps (evaluateAllApprovals (\<lambda>i. 0) ?apps))"
    using sf s1 n g en by (auto simp: fixture_facts)
  then show ?thesis
    using m1 m2 k1 k2 e1 e2 sp g tok by (simp add: numeral_2_eq_2 fixture_facts)
qed

text \<open>
  C4, as stated, fails: after \<^verbatim>\<open>start\<close>, while its first cycle is still waiting (for
  the indexer, say) and has not returned, a tick starts a second cycle beside it.
\<close>

theorem overlapping_cycles_counterexample:
  "run initialMonitor [Start, Tick] = Some \<lparr>isRunning = True, scheduled = 1, inFlight = 2\<rparr>"
  by (simp add: initialMonitor_def start_def tick_def beginCheckAllWallets_def)

lemma run_ticks:
  "scheduled m > 0 \<Longrightarrow> run m (replicate n Tick) = Some (m\<lparr>inFlight := inFlight m + n\<rparr>)"
  by (induction n arbitrary: m) (simp_all add: tick_def beginCheckAllWallets_def)

text \<open>
  C4, amended. Only \<^verbatim>\<open>start\<close> is guarded: while the monitor is running, another
  \<^verbatim>\<open>start\<close> registers no timer and begins no cycle. A tick is not guarded: every tick
  begins a cycle at once, whether or not earlier cycles are still in flight, so after
  \<^verbatim>\<open>start\<close> and \<open>n\<close> ticks with no cycle finished there are \<open>n + 1\<close> cycles in flight;
  no tick is skipped and none is queued.
\<close>

theorem every_tick_begins_a_cycle:
  "inFlight (tick m) = inFlight m + 1
   \<and> start (start m) = start m
   \<and> run initialMonitor (Start # replicate n Tick)
       = Some \<lparr>isRunning = True, scheduled = 1, inFlight = n + 1\<rparr>"
  by (simp add: run_ticks initialMonitor_def start_def tick_def beginCheckAllWallets_def)

end
